theory Spec2Isabelle
  imports Main
begin

section \<open>Text: Python strings as sequences of code points\<close>

text \<open>
  A Python \<^verbatim>\<open>str\<close> is a finite sequence of Unicode code points, each in
  \<^verbatim>\<open>range(0, sys.maxunicode + 1)\<close>. A code point is modelled by its ordinal,
  a natural number, and a string by the list of its ordinals. \<open>ustr\<close> reads an
  ASCII literal as such a list.
\<close>

type_synonym str = "nat list"

definition maxunicode :: nat where
  "maxunicode = 1114111"

definition valid_str :: "str \<Rightarrow> bool" where
  "valid_str s = list_all (\<lambda>c. c \<le> maxunicode) s"

definition ustr :: "string \<Rightarrow> str" where
  "ustr cs = map of_char cs"

text \<open>
  The Unicode character database of the Python runtime is not part of the repository.
  Its ASCII part is written out below; what it says about the code points from 128
  upwards is a parameter: \<open>printable_hi\<close> answers \<^verbatim>\<open>chr(i).isprintable()\<close> there,
  and \<open>lower_hi\<close> is \<^verbatim>\<open>str.lower()\<close> on a string that has a non-ASCII code point
  (lowercasing is context dependent there, so it is a function of the whole string).
\<close>

record unicode_db =
  printable_hi :: "nat \<Rightarrow> bool"
  lower_hi :: "str \<Rightarrow> str"

text \<open>\<^verbatim>\<open>chr(i).isprintable()\<close>: in ASCII exactly the code points 0x20 .. 0x7E.\<close>

definition isprintable :: "unicode_db \<Rightarrow> nat \<Rightarrow> bool" where
  "isprintable db i = (if i < 128 then 32 \<le> i \<and> i \<le> 126 else printable_hi db i)"

definition newline :: nat where
  "newline = 10"

section \<open>The sanitizer\<close>

text \<open>
  \<^verbatim>\<open>str.translate(table)\<close> looks the ordinal of each character up in the table.
  A missing key leaves the character as it is, the value \<^verbatim>\<open>None\<close> deletes it, an
  integer replaces it by that code point and a string by that string.
\<close>

datatype trans_val = TNone | TOrd nat | TStr str

type_synonym trans_table = "nat \<rightharpoonup> trans_val"

fun translate_char :: "trans_table \<Rightarrow> nat \<Rightarrow> str" where
  "translate_char table c =
     (case table c of
        None \<Rightarrow> [c]
      | Some TNone \<Rightarrow> []
      | Some (TOrd k) \<Rightarrow> [k]
      | Some (TStr r) \<Rightarrow> r)"

definition translate :: "str \<Rightarrow> trans_table \<Rightarrow> str" where
  "translate s table = concat (map (translate_char table) s)"

text \<open>
  \<^verbatim>\<open>NOPRINT_TRANS_TABLE = {i: None for i in range(0, sys.maxunicode + 1)
       if not chr(i).isprintable() and chr(i) != "\n"}\<close>
\<close>

definition NOPRINT_TRANS_TABLE :: "unicode_db \<Rightarrow> trans_table" where
  "NOPRINT_TRANS_TABLE db =
     (\<lambda>i. if i < maxunicode + 1 \<and> \<not> isprintable db i \<and> i \<noteq> newline
          then Some TNone else None)"

definition make_printable :: "unicode_db \<Rightarrow> str \<Rightarrow> str" where
  "make_printable db s = translate s (NOPRINT_TRANS_TABLE db)"

text \<open>A database for concrete runs: nothing above ASCII is printable, and
  lowercasing leaves a non-ASCII string alone.\<close>

definition ascii_db :: unicode_db where
  "ascii_db = \<lparr>printable_hi = (\<lambda>i. False), lower_hi = (\<lambda>s. s)\<rparr>"

text \<open>The printable ASCII characters, 0x20 to 0x7E.\<close>

definition printable_ascii :: "nat \<Rightarrow> bool" where
  "printable_ascii c = (32 \<le> c \<and> c \<le> 126)"

section \<open>Paths and extensions\<close>

text \<open>
  \<^verbatim>\<open>str.lower()\<close>: on an ASCII string the letters A to Z move to a to z and the
  rest stays; a string with a non-ASCII code point is lowercased by the database.
\<close>

definition lower_ascii :: "nat \<Rightarrow> nat" where
  "lower_ascii c = (if 65 \<le> c \<and> c \<le> 90 then c + 32 else c)"

definition lower :: "unicode_db \<Rightarrow> str \<Rightarrow> str" where
  "lower db s = (if list_all (\<lambda>c. c < 128) s then map lower_ascii s else lower_hi db s)"

definition sep :: nat where
  "sep = 47"

definition extsep :: nat where
  "extsep = 46"

text \<open>
  \<^verbatim>\<open>str.rfind(c)\<close> for a single character: the highest index of \<open>c\<close>, or -1.
\<close>

fun rfind_aux :: "nat \<Rightarrow> str \<Rightarrow> int \<Rightarrow> int \<Rightarrow> int" where
  "rfind_aux c [] i found = found"
| "rfind_aux c (x # xs) i found = rfind_aux c xs (i + 1) (if x = c then i else found)"

definition rfind :: "str \<Rightarrow> nat \<Rightarrow> int" where
  "rfind p c = rfind_aux c p 0 (- 1)"

text \<open>
  \<^verbatim>\<open>os.path.splitext\<close> of \<^verbatim>\<open>posixpath\<close>, that is
  \<^verbatim>\<open>genericpath._splitext(p, "/", None, ".")\<close>:
  \<^verbatim>\<open>
    sepIndex = p.rfind(sep)
    dotIndex = p.rfind(extsep)
    if dotIndex > sepIndex:
        # skip all leading dots
        filenameIndex = sepIndex + 1
        while filenameIndex < dotIndex:
            if p[filenameIndex:filenameIndex+1] != extsep:
                return p[:dotIndex], p[dotIndex:]
            filenameIndex += 1
    return p, p[:0]
  \<close>
\<close>

function splitext_loop :: "str \<Rightarrow> int \<Rightarrow> int \<Rightarrow> str \<times> str" where
  "splitext_loop p filenameIndex dotIndex =
     (if filenameIndex < dotIndex then
        (if take 1 (drop (nat filenameIndex) p) \<noteq> [extsep]
         then (take (nat dotIndex) p, drop (nat dotIndex) p)
         else splitext_loop p (filenameIndex + 1) dotIndex)
      else (p, []))"
  by pat_completeness auto
termination
  by (relation "measure (\<lambda>(p, filenameIndex, dotIndex). nat (dotIndex - filenameIndex))") auto

definition splitext :: "str \<Rightarrow> str \<times> str" where
  "splitext p =
     (let sepIndex = rfind p sep;
          dotIndex = rfind p extsep
      in if dotIndex > sepIndex then splitext_loop p (sepIndex + 1) dotIndex else (p, []))"

text \<open>
  The extension in the words of the specification: the substring after the last
  \<open>.\<close> of the path (with that dot, as the registry keys have it), compared without
  regard to case; empty when the path has no dot.
\<close>

definition spec_extension :: "unicode_db \<Rightarrow> str \<Rightarrow> str" where
  "spec_extension db p =
     (if extsep \<in> set p then lower db (drop (nat (rfind p extsep)) p) else [])"

section \<open>Documents, errors and the world\<close>

text \<open>
  Metadata values are integers or strings. A document carries its text and a
  metadata dictionary; the documents of the extractors and the documents returned
  have the same two fields.
\<close>

datatype pyval = VInt int | VStr str

type_synonym dict = "str \<rightharpoonup> pyval"

record Document =
  page_content :: str
  metadata :: dict

text \<open>\<^verbatim>\<open>d.get(key, default)\<close>\<close>

definition dict_get :: "dict \<Rightarrow> str \<Rightarrow> pyval \<Rightarrow> pyval" where
  "dict_get d key dflt = (case d key of Some v \<Rightarrow> v | None \<Rightarrow> dflt)"

fun is_int :: "pyval \<Rightarrow> bool" where
  "is_int (VInt n) = True"
| "is_int (VStr s) = False"

text \<open>
  The exceptions that cross the functions below. \<open>ValueError\<close> carries its message.
  \<open>LoaderError\<close> stands for whatever an extractor raises on a file it cannot read or
  parse, \<open>OSError\<close> for a failure of the temporary file or of reading the upload.
  All of them are subclasses of \<^verbatim>\<open>Exception\<close>.
\<close>

datatype error =
    ValueError str
  | TypeError
  | RequestValidationError
  | LoaderError str
  | OSError str

datatype loader = TextLoader str | PDFPlumberLoader str | CSVLoader str

text \<open>One constructor for each call of the logger, with the arguments it is given.\<close>

datatype log_entry =
    LogDocio "Document list"
  | LogUpload "str option" "str option"
  | LogTmpName str
  | LogFailed

text \<open>
  An open file handle: the one \<^verbatim>\<open>NamedTemporaryFile\<close> holds on the temporary
  file of that path, or one that a loader has opened on a path.
\<close>

datatype handle = TemporaryFile str | LoaderFile loader str

text \<open>
  The world outside the functions: the files by path with their contents, the file
  handles that are open, the log, and the loaders whose \<^verbatim>\<open>load()\<close> has been
  called, in order.
\<close>

record world =
  files :: "str \<rightharpoonup> str"
  handles :: "handle set"
  log :: "log_entry list"
  loads :: "loader list"

text \<open>
  What the code takes from its libraries and its platform: the Unicode database,
  what \<^verbatim>\<open>loader.load()\<close> returns for a loader on a file system and the paths on
  which it leaves a file open when it returns or raises (the extractors of langchain
  and the PDF loader are not in the sources at hand), the directory and the random
  name part \<^verbatim>\<open>tempfile\<close> picks, and whether creating, writing and flushing the
  temporary file fail.
\<close>

record env =
  udb :: unicode_db
  extractor :: "loader \<Rightarrow> (str \<rightharpoonup> str) \<Rightarrow> error + Document list"
  retained :: "loader \<Rightarrow> (str \<rightharpoonup> str) \<Rightarrow> str set"
  tempdir :: str
  tempname :: str
  tmp_create :: "error option"
  tmp_write :: "error option"
  tmp_flush :: "error option"

record UploadFile =
  filename :: "str option"
  content_type :: "str option"
  contents :: "error + str"

section \<open>Loading a file\<close>

text \<open>
  \<^verbatim>\<open>loader.load()\<close>: the extractor reads the file system; the call is recorded, and
  the handles the extractor has not closed stay open.
\<close>

definition loader_load :: "env \<Rightarrow> loader \<Rightarrow> world \<Rightarrow> (error + Document list) \<times> world" where
  "loader_load env loader w =
     (extractor env loader (files w),
      w\<lparr>loads := loads w @ [loader],
        handles := handles w \<union> LoaderFile loader ` retained env loader (files w)\<rparr>)"

text \<open>
  The choice of the loader in \<^verbatim>\<open>load_file\<close>:
  \<^verbatim>\<open>
    if ext in (".txt", ".md"):
        loader = loaders.TextLoader(file_path)
    elif ext == ".pdf":
        loader = PDFPlumberLoader(file_path)
    elif ext == ".csv":
        loader = loaders.CSVLoader(file_path)
    else:
        raise ValueError(f"Unsupported file type: {ext}")
  \<close>
\<close>

definition select_loader :: "str \<Rightarrow> str \<Rightarrow> error + loader" where
  "select_loader ext file_path =
     (if ext \<in> {ustr ''.txt'', ustr ''.md''} then Inr (TextLoader file_path)
      else if ext = ustr ''.pdf'' then Inr (PDFPlumberLoader file_path)
      else if ext = ustr ''.csv'' then Inr (CSVLoader file_path)
      else Inl (ValueError (ustr ''Unsupported file type: '' @ ext)))"

definition load_file :: "env \<Rightarrow> str \<Rightarrow> world \<Rightarrow> (error + Document list) \<times> world" where
  "load_file env file_path w =
     (let ext = lower (udb env) (snd (splitext file_path)) in
      case select_loader ext file_path of
        Inl e \<Rightarrow> (Inl e, w)
      | Inr loader \<Rightarrow>
          (case loader_load env loader w of
             (Inl e, w1) \<Rightarrow> (Inl e, w1)
           | (Inr documents, w1) \<Rightarrow>
               (Inr (map (\<lambda>d. \<lparr>page_content = make_printable (udb env) (page_content d),
                                metadata = [ustr ''page'' \<mapsto>
                                              dict_get (metadata d) (ustr ''page'') (VInt 0)]
                                           ++ metadata d\<rparr>)
                         documents),
                w1\<lparr>log := log w1 @ [LogDocio documents]\<rparr>)))"

section \<open>The upload endpoint\<close>

text \<open>\<^verbatim>\<open>os.path.join(a, b)\<close> of \<^verbatim>\<open>posixpath\<close>, for two components.\<close>

definition path_join :: "str \<Rightarrow> str \<Rightarrow> str" where
  "path_join a b =
     (if take 1 b = [sep] then b
      else if a = [] \<or> last a = sep then a @ b
      else a @ [sep] @ b)"

text \<open>
  The name of \<^verbatim>\<open>NamedTemporaryFile(suffix=ext)\<close>: the temporary directory joined
  with the prefix \<^verbatim>\<open>tmp\<close>, the random part and the suffix.
\<close>

definition tmp_name :: "env \<Rightarrow> str \<Rightarrow> str" where
  "tmp_name env suffix = path_join (tempdir env) (ustr ''tmp'' @ tempname env @ suffix)"

text \<open>
  The body of the \<^verbatim>\<open>with\<close> block:
  \<^verbatim>\<open>
    tmp.write(await file.read())
    tmp.flush()
    logger.trace("Loading from temporary file: {name}", name=tmp.name)
    documents = load_file(tmp.name)
  \<close>
  After the flush the file holds the bytes of the upload.
\<close>

definition with_body :: "env \<Rightarrow> UploadFile \<Rightarrow> str \<Rightarrow> world \<Rightarrow> (error + Document list) \<times> world" where
  "with_body env file name w =
     (case contents file of
        Inl e \<Rightarrow> (Inl e, w)
      | Inr data \<Rightarrow>
          (case tmp_write env of
             Some e \<Rightarrow> (Inl e, w)
           | None \<Rightarrow>
               (case tmp_flush env of
                  Some e \<Rightarrow> (Inl e, w)
                | None \<Rightarrow>
                    load_file env name
                      (w\<lparr>files := (files w)(name \<mapsto> data),
                         log := log w @ [LogTmpName name]\<rparr>))))"

text \<open>
  The body of the \<^verbatim>\<open>try\<close> block. \<^verbatim>\<open>splitext(None)\<close> raises a
  \<^verbatim>\<open>TypeError\<close>. The \<^verbatim>\<open>with\<close> statement creates the temporary file and
  opens it; when its block is left, by its end or by an exception, the file is closed
  and, being a \<^verbatim>\<open>NamedTemporaryFile\<close> with the default \<^verbatim>\<open>delete=True\<close>,
  removed (on POSIX a file is removed whether or not other handles are open on it).
  The loop after the block stores the file name of the upload under
  \<^verbatim>\<open>source\<close> and \<^verbatim>\<open>document_id\<close> in the metadata of each document.
\<close>

definition try_body :: "env \<Rightarrow> UploadFile \<Rightarrow> world \<Rightarrow> (error + Document list) \<times> world" where
  "try_body env file w =
     (case filename file of
        None \<Rightarrow> (Inl TypeError, w)
      | Some fname \<Rightarrow>
          (let ext = snd (splitext fname) in
           case tmp_create env of
             Some e \<Rightarrow> (Inl e, w)
           | None \<Rightarrow>
               (let name = tmp_name env ext;
                    w1 = w\<lparr>files := (files w)(name \<mapsto> []),
                           handles := insert (TemporaryFile name) (handles w)\<rparr>;
                    (r, w2) = with_body env file name w1;
                    w3 = w2\<lparr>files := (files w2)(name := None),
                            handles := handles w2 - {TemporaryFile name}\<rparr>
                in case r of
                     Inl e \<Rightarrow> (Inl e, w3)
                   | Inr documents \<Rightarrow>
                       (Inr (map (\<lambda>d. d\<lparr>metadata := (metadata d)
                                            (ustr ''source'' \<mapsto> VStr fname,
                                             ustr ''document_id'' \<mapsto> VStr fname)\<rparr>)
                                 documents),
                        w3))))"

text \<open>
  \<^verbatim>\<open>load_file_api\<close>: the upload is logged, the body is tried, a
  \<^verbatim>\<open>RequestValidationError\<close> is raised again as it is, and any other exception is
  logged and raised again.
\<close>

definition load_file_api :: "env \<Rightarrow> UploadFile \<Rightarrow> world \<Rightarrow> (error + Document list) \<times> world" where
  "load_file_api env file w =
     (case try_body env file (w\<lparr>log := log w @ [LogUpload (content_type file) (filename file)]\<rparr>) of
        (Inr documents, w1) \<Rightarrow> (Inr documents, w1)
      | (Inl RequestValidationError, w1) \<Rightarrow> (Inl RequestValidationError, w1)
      | (Inl e, w1) \<Rightarrow> (Inl e, w1\<lparr>log := log w1 @ [LogFailed]\<rparr>))"

section \<open>A concrete environment\<close>

text \<open>
  For concrete runs: a text loader that returns the file as one document with its
  path as \<^verbatim>\<open>source\<close>, a PDF loader that returns two pages, each with its
  \<^verbatim>\<open>page\<close> and with extractor values for \<^verbatim>\<open>source\<close> and \<^verbatim>\<open>document_id\<close>,
  and a CSV loader that fails on every file. These loaders close every file they open.
\<close>

definition sample_extract :: "loader \<Rightarrow> (str \<rightharpoonup> str) \<Rightarrow> error + Document list" where
  "sample_extract l fs =
     (case l of
        TextLoader p \<Rightarrow>
          (case fs p of
             None \<Rightarrow> Inl (LoaderError p)
           | Some data \<Rightarrow> Inr [\<lparr>page_content = data, metadata = [ustr ''source'' \<mapsto> VStr p]\<rparr>])
      | PDFPlumberLoader p \<Rightarrow>
          Inr [\<lparr>page_content = [65, 12], metadata = [ustr ''page'' \<mapsto> VInt 1,
                                                      ustr ''source'' \<mapsto> VStr p]\<rparr>,
               \<lparr>page_content = [66], metadata = [ustr ''page'' \<mapsto> VInt 2,
                                                  ustr ''document_id'' \<mapsto> VInt 7]\<rparr>]
      | CSVLoader p \<Rightarrow> Inl (LoaderError p))"

definition sample_env :: env where
  "sample_env = \<lparr>udb = ascii_db, extractor = sample_extract, retained = (\<lambda>l fs. {}),
     tempdir = ustr ''/tmp'', tempname = ustr ''k3x'', tmp_create = None, tmp_write = None,
     tmp_flush = None\<rparr>"


text \<open>
  The same environment with an extractor whose one unit has a string under
  \<^verbatim>\<open>page\<close>.
\<close>

definition string_page_env :: env where
  "string_page_env = sample_env\<lparr>extractor :=
     (\<lambda>l fs. Inr [\<lparr>page_content = [65],
                      metadata = [ustr ''page'' \<mapsto> VStr (ustr ''3'')]\<rparr>])\<rparr>"

definition empty_world :: world where
  "empty_world = \<lparr>files = Map.empty, handles = {}, log = [], loads = []\<rparr>"

definition upload :: "string \<Rightarrow> str \<Rightarrow> UploadFile" where
  "upload name data = \<lparr>filename = Some (ustr name), content_type = None, contents = Inr data\<rparr>"

text \<open>A world with one text file in it.\<close>

definition notes_world :: world where
  "notes_world = empty_world\<lparr>files := [ustr ''notes.txt'' \<mapsto> [104, 105, 7]]\<rparr>"

section \<open>Properties of the sanitizer\<close>

lemma translate_char_noprint:
  "translate_char (NOPRINT_TRANS_TABLE db) c =
     (if c \<le> maxunicode \<and> \<not> isprintable db c \<and> c \<noteq> newline then [] else [c])"
  by (simp add: NOPRINT_TRANS_TABLE_def)

lemma make_printable_filter:
  "make_printable db s =
     filter (\<lambda>c. \<not> (c \<le> maxunicode \<and> \<not> isprintable db c \<and> c \<noteq> newline)) s"
proof (induction s)
  case Nil
  show ?case by (simp add: make_printable_def translate_def)
next
  case (Cons c s)
  have step: "make_printable db (c # s) =
      translate_char (NOPRINT_TRANS_TABLE db) c @ make_printable db s"
    by (simp add: make_printable_def translate_def)
  show ?case
    unfolding step Cons.IH translate_char_noprint by simp
qed

text \<open>
  C1. On every string (every code point at most \<^verbatim>\<open>sys.maxunicode\<close>),
  \<open>make_printable\<close> returns the string with exactly the code points deleted that are
  not printable and are not the newline: the survivors stay in their order, nothing
  is put in the place of a deleted code point, and no code point of the result is
  non-printable unless it is the newline.
\<close>

theorem make_printable_deletes_nonprintable:
  assumes "valid_str s"
  shows "make_printable db s = filter (\<lambda>c. isprintable db c \<or> c = newline) s
       \<and> (\<forall>c \<in> set (make_printable db s). isprintable db c \<or> c = newline)
       \<and> length (make_printable db s)
           = length s - length (filter (\<lambda>c. \<not> isprintable db c \<and> c \<noteq> newline) s)"
proof -
  have eq: "make_printable db s = filter (\<lambda>c. isprintable db c \<or> c = newline) s"
    unfolding make_printable_filter
    using assms by (intro filter_cong) (auto simp: valid_str_def list_all_iff)
  have len: "length (filter (\<lambda>c. isprintable db c \<or> c = newline) s)
      = length s - length (filter (\<lambda>c. \<not> isprintable db c \<and> c \<noteq> newline) s)"
    using sum_length_filter_compl [of "\<lambda>c. isprintable db c \<or> c = newline" s]
    by (simp add: de_Morgan_disj)
  show ?thesis
    unfolding eq using len by simp
qed

theorem make_printable_deletes_nonprintable_witness:
  "valid_str [104, 105, 12, 10, 0, 33]
   \<and> make_printable ascii_db [104, 105, 12, 10, 0, 33] = [104, 105, 10, 33]"
proof -
  have v: "valid_str [104, 105, 12, 10, 0, 33]"
    by (simp add: valid_str_def maxunicode_def)
  have p: "filter (\<lambda>c. isprintable ascii_db c \<or> c = newline) [104, 105, 12, 10, 0, 33]
      = [104, 105, 10, 33]"
    by (simp add: isprintable_def newline_def)
  have "make_printable ascii_db [104, 105, 12, 10, 0, 33] = [104, 105, 10, 33]"
    using make_printable_deletes_nonprintable [OF v, of ascii_db, THEN conjunct1] p
    by (rule trans)
  with v show ?thesis by (rule conjI)
qed

text \<open>
  C6. \<open>make_printable\<close> is idempotent; a newline is never removed (the result of a
  string with a newline in it is the result of what is before it, the newline, and
  the result of what is after it); and a string of printable ASCII characters and
  newlines is returned as it is.
\<close>

theorem make_printable_idempotent:
  "make_printable db (make_printable db x) = make_printable db x
   \<and> make_printable db (xs @ newline # ys)
        = make_printable db xs @ newline # make_printable db ys
   \<and> ((\<forall>c \<in> set s. printable_ascii c \<or> c = newline) \<longrightarrow> make_printable db s = s)"
proof (intro conjI impI)
  show "make_printable db (make_printable db x) = make_printable db x"
    by (simp add: make_printable_filter)
  show "make_printable db (xs @ newline # ys)
        = make_printable db xs @ newline # make_printable db ys"
    by (simp add: make_printable_filter)
next
  assume a: "\<forall>c \<in> set s. printable_ascii c \<or> c = newline"
  have "\<forall>c \<in> set s. isprintable db c \<or> c = newline"
  proof
    fix c assume "c \<in> set s"
    with a have "printable_ascii c \<or> c = newline" by blast
    then show "isprintable db c \<or> c = newline"
      by (auto simp: printable_ascii_def isprintable_def)
  qed
  then show "make_printable db s = s"
    unfolding make_printable_filter by (intro filter_True) blast
qed

theorem make_printable_idempotent_witness:
  "list_all (\<lambda>c. printable_ascii c \<or> c = newline) [104, 105, 10, 33]
   \<and> make_printable ascii_db [104, 105, 10, 33] = [104, 105, 10, 33]"
proof -
  have h: "\<forall>c \<in> set [104, 105, 10, 33]. printable_ascii c \<or> c = newline"
    by (simp add: printable_ascii_def newline_def)
  have l: "list_all (\<lambda>c. printable_ascii c \<or> c = newline) [104, 105, 10, 33]"
    by (simp add: printable_ascii_def newline_def)
  from make_printable_idempotent [of ascii_db "[]" "[]" "[]" "[104, 105, 10, 33]",
      THEN conjunct2, THEN conjunct2, THEN mp, OF h] l
  show ?thesis by (intro conjI)
qed

section \<open>Properties of the extension\<close>

lemma ustr_eq_iff [simp]: "ustr a = ustr b \<longleftrightarrow> a = b"
  by (simp add: ustr_def inj_map_eq_map [OF inj_of_char])

lemma ustr_Nil [simp]: "ustr [] = []"
  by (simp add: ustr_def)

lemma ustr_eq_Nil [simp]: "([] = ustr a) = (a = [])" "(ustr a = []) = (a = [])"
  by (auto simp: ustr_def)

lemma rfind_aux_absent: "c \<notin> set xs \<Longrightarrow> rfind_aux c xs i found = found"
  by (induction xs arbitrary: i found) auto

lemma rfind_aux_last:
  "c \<notin> set ys \<Longrightarrow> rfind_aux c (xs @ c # ys) i found = i + int (length xs)"
proof (induction xs arbitrary: i found)
  case Nil
  then show ?case by (simp add: rfind_aux_absent)
next
  case (Cons x xs)
  then show ?case by simp
qed

lemma rfind_absent: "c \<notin> set p \<Longrightarrow> rfind p c = - 1"
  by (simp add: rfind_def rfind_aux_absent)

lemma rfind_last: "c \<notin> set ys \<Longrightarrow> rfind (xs @ c # ys) c = int (length xs)"
  by (simp add: rfind_def rfind_aux_last)

lemma rfind_dir:
  assumes "dir = [] \<or> last dir = sep" and "sep \<notin> set rest"
  shows "rfind (dir @ rest) sep = int (length dir) - 1"
proof (cases "dir = []")
  case True
  with assms show ?thesis by (simp add: rfind_absent)
next
  case False
  with assms have d: "dir = butlast dir @ [sep]"
    by (metis append_butlast_last_id)
  have "rfind (butlast dir @ sep # rest) sep = int (length (butlast dir))"
    using assms(2) by (rule rfind_last)
  moreover have "butlast dir @ sep # rest = dir @ rest"
    using d by (metis append.assoc append_Cons append_Nil)
  ultimately show ?thesis using False by (simp add: of_nat_diff Suc_leI)
qed

declare splitext_loop.simps [simp del]

lemma splitext_loop_all_dots:
  "0 \<le> fi \<Longrightarrow> (\<forall>k. nat fi \<le> k \<and> k < nat di \<longrightarrow> k < length p \<and> p ! k = extsep)
     \<Longrightarrow> splitext_loop p fi di = (p, [])"
proof (induction p fi di rule: splitext_loop.induct)
  case (1 p fi di)
  show ?case
  proof (cases "fi < di")
    case False
    then show ?thesis by (subst splitext_loop.simps) simp
  next
    case True
    with "1.prems" have here: "nat fi < length p" "p ! nat fi = extsep"
      by (auto simp: nat_less_iff)
    then have t: "take 1 (drop (nat fi) p) = [extsep]"
      by (metis Cons_nth_drop_Suc One_nat_def take0 take_Suc_Cons)
    have "splitext_loop p (fi + 1) di = (p, [])"
    proof (rule "1.IH" [OF True])
      show "\<not> take 1 (drop (nat fi) p) \<noteq> [extsep]" using t by simp
      show "0 \<le> fi + 1" using "1.prems" by simp
      show "\<forall>k. nat (fi + 1) \<le> k \<and> k < nat di \<longrightarrow> k < length p \<and> p ! k = extsep"
        using "1.prems" by auto
    qed
    with True t show ?thesis by (subst splitext_loop.simps) simp
  qed
qed

lemma splitext_loop_found:
  "0 \<le> fi \<Longrightarrow> (\<exists>k. nat fi \<le> k \<and> k < nat di \<and> k < length p \<and> p ! k \<noteq> extsep)
     \<Longrightarrow> splitext_loop p fi di = (take (nat di) p, drop (nat di) p)"
proof (induction p fi di rule: splitext_loop.induct)
  case (1 p fi di)
  from "1.prems" obtain k where k: "nat fi \<le> k" "k < nat di" "k < length p" "p ! k \<noteq> extsep"
    by blast
  then have lt: "fi < di" using "1.prems"(1) by linarith
  show ?case
  proof (cases "take 1 (drop (nat fi) p) \<noteq> [extsep]")
    case True
    with lt show ?thesis by (subst splitext_loop.simps) simp
  next
    case False
    have fl: "nat fi < length p" using k by simp
    from False fl have "p ! nat fi = extsep"
      by (metis Cons_nth_drop_Suc One_nat_def list.inject take0 take_Suc_Cons)
    with k have "k \<noteq> nat fi" by auto
    with k "1.prems"(1) have k': "nat (fi + 1) \<le> k" by linarith
    have "splitext_loop p (fi + 1) di = (take (nat di) p, drop (nat di) p)"
    proof (rule "1.IH" [OF lt])
      show "\<not> take 1 (drop (nat fi) p) \<noteq> [extsep]" using False by simp
      show "0 \<le> fi + 1" using "1.prems" by simp
      show "\<exists>k. nat (fi + 1) \<le> k \<and> k < nat di \<and> k < length p \<and> p ! k \<noteq> extsep"
        using k k' by blast
    qed
    with lt False show ?thesis by (subst splitext_loop.simps) simp
  qed
qed

lemma splitext_no_dot: "extsep \<notin> set p \<Longrightarrow> splitext p = (p, [])"
proof -
  assume "extsep \<notin> set p"
  then have "rfind p extsep = - 1" by (rule rfind_absent)
  moreover have "- 1 \<le> rfind p sep"
  proof -
    have "\<And>i f. - 1 \<le> f \<Longrightarrow> 0 \<le> i \<Longrightarrow> - 1 \<le> rfind_aux sep p i f"
      by (induction p) auto
    then show ?thesis by (simp add: rfind_def)
  qed
  ultimately show ?thesis by (simp add: splitext_def Let_def)
qed

lemma splitext_dotfile:
  assumes dir: "dir = [] \<or> last dir = sep"
    and k: "0 < k"
    and name: "extsep \<notin> set name" "sep \<notin> set name"
  shows "splitext (dir @ replicate k extsep @ name) = (dir @ replicate k extsep @ name, [])"
proof -
  let ?p = "dir @ replicate k extsep @ name"
  have ne: "sep \<noteq> extsep" by (simp add: sep_def extsep_def)
  have "sep \<notin> set (replicate k extsep @ name)" using name ne by auto
  with dir have s: "rfind ?p sep = int (length dir) - 1" by (rule rfind_dir)
  obtain j where j: "k = Suc j" using k by (cases k) auto
  have "?p = (dir @ replicate j extsep) @ extsep # name"
    by (simp add: j replicate_append_same)
  then have d: "rfind ?p extsep = int (length dir + j)"
    using rfind_last [OF name(1), of "dir @ replicate j extsep"] by simp
  have "splitext_loop ?p (int (length dir)) (int (length dir + j)) = (?p, [])"
  proof (rule splitext_loop_all_dots)
    show "0 \<le> int (length dir)" by simp
    show "\<forall>i. nat (int (length dir)) \<le> i \<and> i < nat (int (length dir + j))
        \<longrightarrow> i < length ?p \<and> ?p ! i = extsep"
    proof (intro allI impI)
      fix i assume "nat (int (length dir)) \<le> i \<and> i < nat (int (length dir + j))"
      then have b: "length dir \<le> i" "i - length dir < k" by (auto simp: j)
      then have "(replicate k extsep @ name) ! (i - length dir) = extsep"
        by (simp add: nth_append)
      with b show "i < length ?p \<and> ?p ! i = extsep"
        by (simp add: nth_append)
    qed
  qed
  then show ?thesis
    by (simp add: splitext_def Let_def s d)
qed

lemma splitext_ext:
  assumes dir: "dir = [] \<or> last dir = sep"
    and stem: "sep \<notin> set stem" "\<exists>c \<in> set stem. c \<noteq> extsep"
    and e: "extsep \<notin> set e" "sep \<notin> set e"
  shows "splitext (dir @ stem @ extsep # e) = (dir @ stem, extsep # e)"
proof -
  let ?p = "dir @ stem @ extsep # e"
  have ne: "sep \<noteq> extsep" by (simp add: sep_def extsep_def)
  have "sep \<notin> set (stem @ extsep # e)" using stem e ne by auto
  with dir have s: "rfind ?p sep = int (length dir) - 1" by (rule rfind_dir)
  have d: "rfind ?p extsep = int (length dir + length stem)"
    using rfind_last [OF e(1), of "dir @ stem"] by simp
  from stem(2) obtain i where i: "i < length stem" "stem ! i \<noteq> extsep"
    by (auto simp: in_set_conv_nth)
  have "splitext_loop ?p (int (length dir)) (int (length dir + length stem))
      = (take (nat (int (length dir + length stem))) ?p, drop (nat (int (length dir + length stem))) ?p)"
  proof (rule splitext_loop_found)
    show "0 \<le> int (length dir)" by simp
    show "\<exists>k. nat (int (length dir)) \<le> k \<and> k < nat (int (length dir + length stem))
        \<and> k < length ?p \<and> ?p ! k \<noteq> extsep"
      using i by (intro exI [of _ "length dir + i"]) (auto simp: nth_append)
  qed
  moreover have "0 < length stem" using i by auto
  ultimately show ?thesis
    by (simp add: splitext_def Let_def s d)
qed

section \<open>Properties of loading a file\<close>

lemma lower_Nil [simp]: "lower db [] = []"
  by (simp add: lower_def)

lemma select_loader_Nil:
  "select_loader [] p = Inl (ValueError (ustr ''Unsupported file type: ''))"
  by (simp add: select_loader_def)

lemma load_file_unsupported:
  "select_loader (lower (udb env) (snd (splitext p))) p = Inl e \<Longrightarrow> load_file env p w = (Inl e, w)"
  by (simp add: load_file_def)

lemma load_file_extract_error:
  "select_loader (lower (udb env) (snd (splitext p))) p = Inr L
   \<Longrightarrow> extractor env L (files w) = Inl e
   \<Longrightarrow> load_file env p w =
       (Inl e, w\<lparr>loads := loads w @ [L],
                 handles := handles w \<union> LoaderFile L ` retained env L (files w)\<rparr>)"
  by (simp add: load_file_def loader_load_def)

lemma load_file_extract_ok:
  "select_loader (lower (udb env) (snd (splitext p))) p = Inr L
   \<Longrightarrow> extractor env L (files w) = Inr units
   \<Longrightarrow> load_file env p w =
       (Inr (map (\<lambda>d. \<lparr>page_content = make_printable (udb env) (page_content d),
                        metadata = [ustr ''page'' \<mapsto> dict_get (metadata d) (ustr ''page'') (VInt 0)]
                                   ++ metadata d\<rparr>) units),
        w\<lparr>loads := loads w @ [L],
          handles := handles w \<union> LoaderFile L ` retained env L (files w),
          log := log w @ [LogDocio units]\<rparr>)"
  by (simp add: load_file_def loader_load_def)

lemma load_file_loads:
  "select_loader (lower (udb env) (snd (splitext p))) p = Inr L
   \<Longrightarrow> loads (snd (load_file env p w)) = loads w @ [L]"
  by (cases "extractor env L (files w)")
     (simp_all add: load_file_extract_error load_file_extract_ok)

lemma load_file_Inr_D:
  assumes "load_file env p w = (Inr docs, w')"
  obtains L units where
    "select_loader (lower (udb env) (snd (splitext p))) p = Inr L"
    "extractor env L (files w) = Inr units"
proof (cases "select_loader (lower (udb env) (snd (splitext p))) p")
  case (Inl e)
  with assms show ?thesis by (simp add: load_file_unsupported)
next
  case (Inr L)
  show ?thesis
  proof (cases "extractor env L (files w)")
    case (Inl e)
    with Inr assms show ?thesis by (simp add: load_file_extract_error)
  next
    case r: (Inr units)
    with Inr that show ?thesis by blast
  qed
qed

text \<open>
  C2, as amended. The extension is what \<^verbatim>\<open>os.path.splitext\<close> returns, in lower
  case. When it is \<^verbatim>\<open>.txt\<close> or \<^verbatim>\<open>.md\<close> the text loader is the one
  loader that runs, on this path; when it is \<^verbatim>\<open>.pdf\<close> the PDF loader; when it
  is \<^verbatim>\<open>.csv\<close> the CSV loader. For any other extension the result is the
  \<^verbatim>\<open>ValueError\<close> with the lowercased extension in its message, and the world is
  unchanged: no loader has run and there are no documents. For a path whose last
  component is a stem with a character other than the dot, a dot, and a rest with no
  dot, the extension is that dot with the rest.
\<close>

theorem load_file_dispatch:
  assumes ext: "ext = lower (udb env) (snd (splitext p))"
  shows "(ext = ustr ''.txt'' \<or> ext = ustr ''.md''
            \<longrightarrow> loads (snd (load_file env p w)) = loads w @ [TextLoader p])
       \<and> (ext = ustr ''.pdf''
            \<longrightarrow> loads (snd (load_file env p w)) = loads w @ [PDFPlumberLoader p])
       \<and> (ext = ustr ''.csv''
            \<longrightarrow> loads (snd (load_file env p w)) = loads w @ [CSVLoader p])
       \<and> (ext \<notin> {ustr ''.txt'', ustr ''.md'', ustr ''.pdf'', ustr ''.csv''}
            \<longrightarrow> load_file env p w
                  = (Inl (ValueError (ustr ''Unsupported file type: '' @ ext)), w))
       \<and> ((dir = [] \<or> last dir = sep) \<and> sep \<notin> set stem \<and> (\<exists>c \<in> set stem. c \<noteq> extsep)
             \<and> extsep \<notin> set e \<and> sep \<notin> set e
            \<longrightarrow> snd (splitext (dir @ stem @ extsep # e)) = extsep # e)"
proof (intro conjI impI)
  assume "ext = ustr ''.txt'' \<or> ext = ustr ''.md''"
  then have "select_loader ext p = Inr (TextLoader p)"
    by (auto simp: select_loader_def)
  then show "loads (snd (load_file env p w)) = loads w @ [TextLoader p]"
    unfolding ext by (rule load_file_loads)
next
  assume "ext = ustr ''.pdf''"
  then have "select_loader ext p = Inr (PDFPlumberLoader p)"
    by (simp add: select_loader_def)
  then show "loads (snd (load_file env p w)) = loads w @ [PDFPlumberLoader p]"
    unfolding ext by (rule load_file_loads)
next
  assume "ext = ustr ''.csv''"
  then have "select_loader ext p = Inr (CSVLoader p)"
    by (simp add: select_loader_def)
  then show "loads (snd (load_file env p w)) = loads w @ [CSVLoader p]"
    unfolding ext by (rule load_file_loads)
next
  assume "ext \<notin> {ustr ''.txt'', ustr ''.md'', ustr ''.pdf'', ustr ''.csv''}"
  then have "select_loader ext p = Inl (ValueError (ustr ''Unsupported file type: '' @ ext))"
    by (simp add: select_loader_def)
  then show "load_file env p w = (Inl (ValueError (ustr ''Unsupported file type: '' @ ext)), w)"
    unfolding ext by (rule load_file_unsupported)
next
  assume "(dir = [] \<or> last dir = sep) \<and> sep \<notin> set stem \<and> (\<exists>c \<in> set stem. c \<noteq> extsep)
             \<and> extsep \<notin> set e \<and> sep \<notin> set e"
  then show "snd (splitext (dir @ stem @ extsep # e)) = extsep # e"
    by (simp add: splitext_ext)
qed

lemma splitext_Report: "splitext (ustr ''/data/Report.PDF'') = (ustr ''/data/Report'', ustr ''.PDF'')"
proof -
  have "splitext (ustr ''/data/'' @ ustr ''Report'' @ extsep # ustr ''PDF'')
      = (ustr ''/data/'' @ ustr ''Report'', extsep # ustr ''PDF'')"
    by (rule splitext_ext) (simp_all add: ustr_def sep_def extsep_def)
  then show ?thesis by (simp add: ustr_def extsep_def)
qed

lemma splitext_xyz: "splitext (ustr ''a.xyz'') = (ustr ''a'', ustr ''.xyz'')"
proof -
  have "splitext ([] @ ustr ''a'' @ extsep # ustr ''xyz'') = ([] @ ustr ''a'', extsep # ustr ''xyz'')"
    by (rule splitext_ext) (simp_all add: ustr_def sep_def extsep_def)
  then show ?thesis by (simp add: ustr_def extsep_def)
qed

lemma lower_PDF: "lower ascii_db (ustr ''.PDF'') = ustr ''.pdf''"
  by (simp add: lower_def lower_ascii_def ustr_def)

lemma lower_xyz: "lower ascii_db (ustr ''.xyz'') = ustr ''.xyz''"
  by (simp add: lower_def lower_ascii_def ustr_def)

theorem load_file_dispatch_witness:
  "loads (snd (load_file sample_env (ustr ''/data/Report.PDF'') empty_world))
     = [PDFPlumberLoader (ustr ''/data/Report.PDF'')]
   \<and> load_file sample_env (ustr ''a.xyz'') empty_world
     = (Inl (ValueError (ustr ''Unsupported file type: .xyz'')), empty_world)"
proof -
  have e1: "ustr ''.pdf'' = lower (udb sample_env) (snd (splitext (ustr ''/data/Report.PDF'')))"
    by (simp add: splitext_Report sample_env_def lower_PDF)
  have e2: "ustr ''.xyz'' = lower (udb sample_env) (snd (splitext (ustr ''a.xyz'')))"
    by (simp add: splitext_xyz sample_env_def lower_xyz)
  have n: "ustr ''.xyz'' \<notin> {ustr ''.txt'', ustr ''.md'', ustr ''.pdf'', ustr ''.csv''}"
    by simp
  have a: "loads (snd (load_file sample_env (ustr ''/data/Report.PDF'') empty_world))
      = loads empty_world @ [PDFPlumberLoader (ustr ''/data/Report.PDF'')]"
    using load_file_dispatch [OF e1, where w = empty_world]
    by blast
  have b: "load_file sample_env (ustr ''a.xyz'') empty_world
      = (Inl (ValueError (ustr ''Unsupported file type: '' @ ustr ''.xyz'')), empty_world)"
    using load_file_dispatch [OF e2, where w = empty_world] n
    by blast
  have l: "loads empty_world = []" by (simp add: empty_world_def)
  have m: "ustr ''Unsupported file type: '' @ ustr ''.xyz'' = ustr ''Unsupported file type: .xyz''"
    by (simp add: ustr_def)
  show ?thesis using a b unfolding l m by simp
qed

lemma splitext_dot_txt: "splitext (ustr ''.txt'') = (ustr ''.txt'', [])"
proof -
  have "splitext ([] @ replicate 1 extsep @ ustr ''txt'') = ([] @ replicate 1 extsep @ ustr ''txt'', [])"
    by (rule splitext_dotfile) (simp_all add: ustr_def sep_def extsep_def)
  then show ?thesis by (simp add: ustr_def extsep_def)
qed

text \<open>
  C2, as stated, fails on the path \<^verbatim>\<open>.txt\<close>: the substring from its last dot is
  \<^verbatim>\<open>.txt\<close>, yet \<^verbatim>\<open>splitext\<close> gives it no extension, no loader runs and the
  \<^verbatim>\<open>ValueError\<close> is raised.
\<close>

theorem load_file_dispatch_counterexample:
  "spec_extension ascii_db (ustr ''.txt'') = ustr ''.txt''
   \<and> load_file sample_env (ustr ''.txt'') empty_world
       = (Inl (ValueError (ustr ''Unsupported file type: '')), empty_world)
   \<and> loads (snd (load_file sample_env (ustr ''.txt'') empty_world)) = []"
proof -
  have r: "rfind (ustr ''.txt'') extsep = 0"
    using rfind_last [of extsep "ustr ''txt''" "[]"]
    by (simp add: ustr_def extsep_def)
  have s: "spec_extension ascii_db (ustr ''.txt'') = ustr ''.txt''"
    unfolding spec_extension_def r
    by (simp add: lower_def lower_ascii_def ustr_def extsep_def)
  have l: "load_file sample_env (ustr ''.txt'') empty_world
       = (Inl (ValueError (ustr ''Unsupported file type: '')), empty_world)"
    by (rule load_file_unsupported) (simp add: splitext_dot_txt select_loader_Nil)
  show ?thesis using s l by (simp add: empty_world_def)
qed

text \<open>
  C10. A path for which \<^verbatim>\<open>splitext\<close> yields the empty extension makes
  \<^verbatim>\<open>load_file\<close> raise the \<^verbatim>\<open>ValueError\<close> whose message ends in the empty
  extension, with no loader run. That is so for every path with no dot at all, and
  for every path whose last component is one or more dots followed by a name with no
  dot, such as \<^verbatim>\<open>.bashrc\<close>: the text after the leading dot is not taken as the
  extension.
\<close>

theorem load_file_without_extension:
  "(snd (splitext p) = []
      \<longrightarrow> load_file env p w = (Inl (ValueError (ustr ''Unsupported file type: '')), w))
   \<and> (extsep \<notin> set p
      \<longrightarrow> load_file env p w = (Inl (ValueError (ustr ''Unsupported file type: '')), w))
   \<and> ((dir = [] \<or> last dir = sep) \<and> 0 < k \<and> extsep \<notin> set name \<and> sep \<notin> set name
      \<longrightarrow> load_file env (dir @ replicate k extsep @ name) w
            = (Inl (ValueError (ustr ''Unsupported file type: '')), w))"
proof -
  have none: "load_file env q w = (Inl (ValueError (ustr ''Unsupported file type: '')), w)"
    if "snd (splitext q) = []" for q
    by (rule load_file_unsupported) (simp add: that select_loader_Nil)
  show ?thesis
  proof (intro conjI impI)
    assume "snd (splitext p) = []"
    then show "load_file env p w = (Inl (ValueError (ustr ''Unsupported file type: '')), w)"
      by (rule none)
  next
    assume "extsep \<notin> set p"
    then have "snd (splitext p) = []" by (simp add: splitext_no_dot)
    then show "load_file env p w = (Inl (ValueError (ustr ''Unsupported file type: '')), w)"
      by (rule none)
  next
    assume "(dir = [] \<or> last dir = sep) \<and> 0 < k \<and> extsep \<notin> set name \<and> sep \<notin> set name"
    then have "snd (splitext (dir @ replicate k extsep @ name)) = []"
      by (simp add: splitext_dotfile)
    then show "load_file env (dir @ replicate k extsep @ name) w
        = (Inl (ValueError (ustr ''Unsupported file type: '')), w)"
      by (rule none)
  qed
qed

theorem load_file_without_extension_witness:
  "load_file sample_env (ustr ''.bashrc'') empty_world
     = (Inl (ValueError (ustr ''Unsupported file type: '')), empty_world)
   \<and> load_file sample_env (ustr ''/srv/README'') empty_world
     = (Inl (ValueError (ustr ''Unsupported file type: '')), empty_world)"
proof -
  have h: "([] = [] \<or> last [] = sep) \<and> 0 < (1::nat) \<and> extsep \<notin> set (ustr ''bashrc'')
      \<and> sep \<notin> set (ustr ''bashrc'')"
    by (simp add: ustr_def sep_def extsep_def)
  have p: "[] @ replicate 1 extsep @ ustr ''bashrc'' = ustr ''.bashrc''"
    by (simp add: ustr_def extsep_def)
  have a: "load_file sample_env (ustr ''.bashrc'') empty_world
     = (Inl (ValueError (ustr ''Unsupported file type: '')), empty_world)"
    using load_file_without_extension
      [where dir = "[]" and k = 1 and name = "ustr ''bashrc''" and env = sample_env
         and w = empty_world, THEN conjunct2, THEN conjunct2, THEN mp, OF h]
    unfolding p .
  have n: "extsep \<notin> set (ustr ''/srv/README'')"
    by (simp add: ustr_def extsep_def)
  have b: "load_file sample_env (ustr ''/srv/README'') empty_world
     = (Inl (ValueError (ustr ''Unsupported file type: '')), empty_world)"
    using load_file_without_extension
      [where p = "ustr ''/srv/README''" and env = sample_env and w = empty_world,
         THEN conjunct2, THEN conjunct1, THEN mp, OF n] .
  show ?thesis using a b by (rule conjI)
qed

text \<open>
  C5. When the extractor returns n units, \<^verbatim>\<open>load_file\<close> returns n documents, and
  the i-th document is the i-th unit with its text sanitized and its metadata put
  over the default \<^verbatim>\<open>page\<close> entry: the order of the extractor is kept.
\<close>

theorem load_file_preserves_order:
  assumes "select_loader (lower (udb env) (snd (splitext p))) p = Inr L"
    and "extractor env L (files w) = Inr units"
  shows "\<exists>docs w'. load_file env p w = (Inr docs, w')
       \<and> length docs = length units
       \<and> (\<forall>i < length units.
            docs ! i = \<lparr>page_content = make_printable (udb env) (page_content (units ! i)),
                        metadata = [ustr ''page'' \<mapsto>
                                      dict_get (metadata (units ! i)) (ustr ''page'') (VInt 0)]
                                   ++ metadata (units ! i)\<rparr>)"
  using load_file_extract_ok [OF assms] by simp

lemma splitext_doc_pdf: "splitext (ustr ''doc.pdf'') = (ustr ''doc'', ustr ''.pdf'')"
proof -
  have "splitext ([] @ ustr ''doc'' @ extsep # ustr ''pdf'') = ([] @ ustr ''doc'', extsep # ustr ''pdf'')"
    by (rule splitext_ext) (simp_all add: ustr_def sep_def extsep_def)
  then show ?thesis by (simp add: ustr_def extsep_def)
qed

lemma lower_pdf: "lower ascii_db (ustr ''.pdf'') = ustr ''.pdf''"
  by (simp add: lower_def lower_ascii_def ustr_def)

lemma select_doc_pdf:
  "select_loader (lower (udb sample_env) (snd (splitext (ustr ''doc.pdf'')))) (ustr ''doc.pdf'')
     = Inr (PDFPlumberLoader (ustr ''doc.pdf''))"
  by (simp add: splitext_doc_pdf sample_env_def lower_pdf select_loader_def)

lemma extract_doc_pdf:
  "extractor sample_env (PDFPlumberLoader (ustr ''doc.pdf'')) fs =
     Inr [\<lparr>page_content = [65, 12], metadata = [ustr ''page'' \<mapsto> VInt 1,
                                                 ustr ''source'' \<mapsto> VStr (ustr ''doc.pdf'')]\<rparr>,
          \<lparr>page_content = [66], metadata = [ustr ''page'' \<mapsto> VInt 2,
                                             ustr ''document_id'' \<mapsto> VInt 7]\<rparr>]"
  by (simp add: sample_env_def sample_extract_def)

lemma make_printable_sample:
  "make_printable ascii_db [65, 12] = [65]" "make_printable ascii_db [66] = [66]"
  by (simp_all add: make_printable_filter isprintable_def newline_def maxunicode_def)

theorem load_file_preserves_order_witness:
  "\<exists>docs w'. load_file sample_env (ustr ''doc.pdf'') empty_world = (Inr docs, w')
     \<and> length docs = 2
     \<and> page_content (docs ! 0) = [65] \<and> page_content (docs ! 1) = [66]"
proof -
  from load_file_preserves_order [OF select_doc_pdf extract_doc_pdf, of empty_world]
  obtain docs w' where l: "load_file sample_env (ustr ''doc.pdf'') empty_world = (Inr docs, w')"
    and n: "length docs = 2"
    and d0: "page_content (docs ! 0) = make_printable (udb sample_env) [65, 12]"
    and d1: "page_content (docs ! 1) = make_printable (udb sample_env) [66]"
    by fastforce
  have u: "udb sample_env = ascii_db" by (simp add: sample_env_def)
  show ?thesis using l n d0 d1 unfolding u make_printable_sample by blast
qed

lemma page_default:
  "([ustr ''page'' \<mapsto> dict_get m (ustr ''page'') (VInt 0)] ++ m) (ustr ''page'')
     = Some (dict_get m (ustr ''page'') (VInt 0))"
  by (simp add: map_add_def dict_get_def split: option.split)

text \<open>
  C3, as amended. Every document that \<^verbatim>\<open>load_file\<close> returns has a
  \<^verbatim>\<open>page\<close> key in its metadata. Its value is the \<^verbatim>\<open>page\<close> of the unit of
  the extractor at the same position, as it is, when that unit has one, and the
  integer 0 otherwise; it is an integer whenever the page of the unit, if there is
  one, is an integer.
\<close>

theorem load_file_page_key:
  assumes "load_file env p w = (Inr docs, w')"
  shows "\<exists>L units.
           select_loader (lower (udb env) (snd (splitext p))) p = Inr L
         \<and> extractor env L (files w) = Inr units
         \<and> length docs = length units
         \<and> (\<forall>i < length docs.
              metadata (docs ! i) (ustr ''page'')
                = Some (case metadata (units ! i) (ustr ''page'') of
                          Some v \<Rightarrow> v | None \<Rightarrow> VInt 0)
              \<and> ((\<forall>v. metadata (units ! i) (ustr ''page'') = Some v \<longrightarrow> is_int v)
                   \<longrightarrow> (\<exists>n. metadata (docs ! i) (ustr ''page'') = Some (VInt n))))"
proof -
  from assms obtain L units
    where sel: "select_loader (lower (udb env) (snd (splitext p))) p = Inr L"
      and ex: "extractor env L (files w) = Inr units"
    by (rule load_file_Inr_D)
  let ?norm = "\<lambda>d. \<lparr>page_content = make_printable (udb env) (page_content d),
                     metadata = [ustr ''page'' \<mapsto> dict_get (metadata d) (ustr ''page'') (VInt 0)]
                                ++ metadata d\<rparr>"
  have docs: "docs = map ?norm units"
    using load_file_extract_ok [OF sel ex] assms by simp
  have each: "metadata (docs ! i) (ustr ''page'')
                = Some (case metadata (units ! i) (ustr ''page'') of
                          Some v \<Rightarrow> v | None \<Rightarrow> VInt 0)
              \<and> ((\<forall>v. metadata (units ! i) (ustr ''page'') = Some v \<longrightarrow> is_int v)
                   \<longrightarrow> (\<exists>n. metadata (docs ! i) (ustr ''page'') = Some (VInt n)))"
    if "i < length docs" for i
  proof -
    from that have i: "i < length units" by (simp add: docs)
    have m: "metadata (docs ! i) (ustr ''page'')
        = Some (dict_get (metadata (units ! i)) (ustr ''page'') (VInt 0))"
      using i by (simp add: docs page_default)
    show ?thesis
    proof (cases "metadata (units ! i) (ustr ''page'')")
      case None
      with m show ?thesis by (simp add: dict_get_def)
    next
      case (Some v)
      show ?thesis
      proof (cases v)
        case (VInt n)
        with m Some show ?thesis by (simp add: dict_get_def)
      next
        case (VStr s)
        with m Some show ?thesis by (simp add: dict_get_def)
      qed
    qed
  qed
  have "length docs = length units" by (simp add: docs)
  with sel ex each show ?thesis by blast
qed

lemma splitext_notes_txt: "splitext (ustr ''notes.txt'') = (ustr ''notes'', ustr ''.txt'')"
proof -
  have "splitext ([] @ ustr ''notes'' @ extsep # ustr ''txt'') = ([] @ ustr ''notes'', extsep # ustr ''txt'')"
    by (rule splitext_ext) (simp_all add: ustr_def sep_def extsep_def)
  then show ?thesis by (simp add: ustr_def extsep_def)
qed

lemma lower_txt: "lower ascii_db (ustr ''.txt'') = ustr ''.txt''"
  by (simp add: lower_def lower_ascii_def ustr_def)

lemma select_notes_txt:
  "select_loader (lower (udb sample_env) (snd (splitext (ustr ''notes.txt'')))) (ustr ''notes.txt'')
     = Inr (TextLoader (ustr ''notes.txt''))"
  by (simp add: splitext_notes_txt sample_env_def lower_txt select_loader_def)

lemma extract_notes_txt:
  "extractor sample_env (TextLoader (ustr ''notes.txt'')) (files notes_world) =
     Inr [\<lparr>page_content = [104, 105, 7],
           metadata = [ustr ''source'' \<mapsto> VStr (ustr ''notes.txt'')]\<rparr>]"
  by (simp add: sample_env_def sample_extract_def notes_world_def empty_world_def)

theorem load_file_page_key_witness:
  "\<exists>docs w'. load_file sample_env (ustr ''notes.txt'') notes_world = (Inr docs, w')
     \<and> length docs = 1
     \<and> metadata (docs ! 0) (ustr ''page'') = Some (VInt 0)"
proof -
  obtain docs w' where l: "load_file sample_env (ustr ''notes.txt'') notes_world = (Inr docs, w')"
    using load_file_extract_ok [OF select_notes_txt extract_notes_txt] by blast
  from load_file_page_key [OF l] obtain L units
    where sel: "select_loader (lower (udb sample_env) (snd (splitext (ustr ''notes.txt''))))
                  (ustr ''notes.txt'') = Inr L"
      and ex: "extractor sample_env L (files notes_world) = Inr units"
      and len: "length docs = length units"
      and pg: "\<forall>i < length docs.
              metadata (docs ! i) (ustr ''page'')
                = Some (case metadata (units ! i) (ustr ''page'') of
                          Some v \<Rightarrow> v | None \<Rightarrow> VInt 0)
              \<and> ((\<forall>v. metadata (units ! i) (ustr ''page'') = Some v \<longrightarrow> is_int v)
                   \<longrightarrow> (\<exists>n. metadata (docs ! i) (ustr ''page'') = Some (VInt n)))"
    by blast
  from sel have L: "L = TextLoader (ustr ''notes.txt'')"
    by (simp add: select_notes_txt)
  from ex have u: "units = [\<lparr>page_content = [104, 105, 7],
           metadata = [ustr ''source'' \<mapsto> VStr (ustr ''notes.txt'')]\<rparr>]"
    by (simp add: L extract_notes_txt)
  from len have n: "length docs = 1" by (simp add: u)
  with pg have "metadata (docs ! 0) (ustr ''page'')
      = Some (case metadata (units ! 0) (ustr ''page'') of Some v \<Rightarrow> v | None \<Rightarrow> VInt 0)"
    by simp
  then have "metadata (docs ! 0) (ustr ''page'') = Some (VInt 0)"
    by (simp add: u)
  with l n show ?thesis by blast
qed

section \<open>Properties of the upload endpoint\<close>

lemma load_file_cases:
  obtains (unsupported) e where
      "select_loader (lower (udb env) (snd (splitext p))) p = Inl e"
      "load_file env p w = (Inl e, w)"
  | (failed) L e where
      "select_loader (lower (udb env) (snd (splitext p))) p = Inr L"
      "extractor env L (files w) = Inl e"
      "load_file env p w =
         (Inl e, w\<lparr>loads := loads w @ [L],
                   handles := handles w \<union> LoaderFile L ` retained env L (files w)\<rparr>)"
  | (loaded) L units where
      "select_loader (lower (udb env) (snd (splitext p))) p = Inr L"
      "extractor env L (files w) = Inr units"
      "load_file env p w =
         (Inr (map (\<lambda>d. \<lparr>page_content = make_printable (udb env) (page_content d),
                          metadata = [ustr ''page'' \<mapsto> dict_get (metadata d) (ustr ''page'') (VInt 0)]
                                     ++ metadata d\<rparr>) units),
          w\<lparr>loads := loads w @ [L],
            handles := handles w \<union> LoaderFile L ` retained env L (files w),
            log := log w @ [LogDocio units]\<rparr>)"
proof (cases "select_loader (lower (udb env) (snd (splitext p))) p")
  case (Inl e)
  then show ?thesis using unsupported load_file_unsupported by blast
next
  case (Inr L)
  show ?thesis
  proof (cases "extractor env L (files w)")
    case (Inl e)
    with Inr show ?thesis using failed load_file_extract_error by blast
  next
    case r: (Inr units)
    with Inr show ?thesis using loaded load_file_extract_ok by blast
  qed
qed

lemma load_file_files [simp]: "files (snd (load_file env p w)) = files w"
  by (cases rule: load_file_cases [of env p w]) simp_all




lemma load_file_temporary_handle:
  "TemporaryFile n \<in> handles (snd (load_file env p w)) \<longleftrightarrow> TemporaryFile n \<in> handles w"
  by (cases rule: load_file_cases [of env p w]) auto


lemma with_body_staged:
  "contents file = Inr data \<Longrightarrow> tmp_write env = None \<Longrightarrow> tmp_flush env = None
   \<Longrightarrow> with_body env file name w =
       load_file env name (w\<lparr>files := (files w)(name \<mapsto> data), log := log w @ [LogTmpName name]\<rparr>)"
  by (simp add: with_body_def)

lemma try_body_no_name: "filename file = None \<Longrightarrow> try_body env file w = (Inl TypeError, w)"
  by (simp add: try_body_def)

lemma try_body_not_created:
  "filename file = Some fname \<Longrightarrow> tmp_create env = Some e \<Longrightarrow> try_body env file w = (Inl e, w)"
  by (simp add: try_body_def)

lemma try_body_created:
  assumes "filename file = Some fname" and "tmp_create env = None"
    and "name = tmp_name env (snd (splitext fname))"
    and "with_body env file name
           (w\<lparr>files := (files w)(name \<mapsto> []),
              handles := insert (TemporaryFile name) (handles w)\<rparr>) = (r, w2)"
  shows "try_body env file w =
     (case r of
        Inl e \<Rightarrow> Inl e
      | Inr documents \<Rightarrow>
          Inr (map (\<lambda>d. d\<lparr>metadata := (metadata d)(ustr ''source'' \<mapsto> VStr fname,
                                                     ustr ''document_id'' \<mapsto> VStr fname)\<rparr>)
                   documents),
      w2\<lparr>files := (files w2)(name := None), handles := handles w2 - {TemporaryFile name}\<rparr>)"
  using assms by (simp add: try_body_def Let_def split: sum.split)

lemma load_file_api_fst:
  "fst (load_file_api env file w)
     = fst (try_body env file (w\<lparr>log := log w @ [LogUpload (content_type file) (filename file)]\<rparr>))"
  by (simp add: load_file_api_def split: prod.split sum.split error.split)




lemma load_file_fst_files:
  "files w = files w' \<Longrightarrow> fst (load_file env p w) = fst (load_file env p w')"
  by (simp add: load_file_def loader_load_def split: sum.split)

lemma load_file_api_result:
  assumes "filename file = Some fname" and "tmp_create env = None"
    and "contents file = Inr data" and "tmp_write env = None" and "tmp_flush env = None"
    and name: "name = tmp_name env (snd (splitext fname))"
    and W: "files W = (files w)(name \<mapsto> data)"
  shows "fst (load_file_api env file w) =
     (case fst (load_file env name W) of
        Inl e \<Rightarrow> Inl e
      | Inr documents \<Rightarrow>
          Inr (map (\<lambda>d. d\<lparr>metadata := (metadata d)(ustr ''source'' \<mapsto> VStr fname,
                                                     ustr ''document_id'' \<mapsto> VStr fname)\<rparr>)
                   documents))"
proof -
  define w0 where "w0 = w\<lparr>log := log w @ [LogUpload (content_type file) (filename file)]\<rparr>"
  define w1 where "w1 = w0\<lparr>files := (files w0)(name \<mapsto> []),
                           handles := insert (TemporaryFile name) (handles w0)\<rparr>"
  define w2 where "w2 = w1\<lparr>files := (files w1)(name \<mapsto> data), log := log w1 @ [LogTmpName name]\<rparr>"
  have wb: "with_body env file name w1 = load_file env name w2"
    unfolding w2_def using assms(3-5) by (rule with_body_staged)
  obtain r w3 where lf: "load_file env name w2 = (r, w3)"
    by (cases "load_file env name w2")
  have "files w2 = files W" by (simp add: w2_def w1_def w0_def W)
  then have "fst (load_file env name w2) = fst (load_file env name W)"
    by (rule load_file_fst_files)
  then have r: "fst (load_file env name W) = r" by (simp add: lf)
  have "with_body env file name
           (w0\<lparr>files := (files w0)(name \<mapsto> []),
               handles := insert (TemporaryFile name) (handles w0)\<rparr>) = (r, w3)"
    using wb lf by (simp add: w1_def)
  from try_body_created [OF assms(1,2) name this]
  have "fst (try_body env file w0) =
     (case r of
        Inl e \<Rightarrow> Inl e
      | Inr documents \<Rightarrow>
          Inr (map (\<lambda>d. d\<lparr>metadata := (metadata d)(ustr ''source'' \<mapsto> VStr fname,
                                                     ustr ''document_id'' \<mapsto> VStr fname)\<rparr>)
                   documents))"
    by simp
  then show ?thesis
    unfolding load_file_api_fst w0_def [symmetric] r .
qed

text \<open>
  C7. With the upload staged in the temporary file, an unsupported extension
  and a failure of the extractor both come out of \<^verbatim>\<open>load_file_api\<close> as the very
  error that was raised; no other error comes out, so none is turned into another;
  and the call returns documents only when the extractor returned its units, one
  document for each unit. In general the \<^verbatim>\<open>try\<close> statement changes nothing in
  what its body returns or raises.
\<close>

theorem errors_propagate:
  assumes "filename file = Some fname" and "tmp_create env = None"
    and "contents file = Inr data" and "tmp_write env = None" and "tmp_flush env = None"
    and name: "name = tmp_name env (snd (splitext fname))"
    and sel: "sel = select_loader (lower (udb env) (snd (splitext name))) name"
    and fs: "fs = (files w)(name \<mapsto> data)"
  shows "(\<forall>e. sel = Inl e \<longrightarrow> fst (load_file_api env file w) = Inl e)
       \<and> (\<forall>L e. sel = Inr L \<and> extractor env L fs = Inl e
             \<longrightarrow> fst (load_file_api env file w) = Inl e)
       \<and> (\<forall>e. fst (load_file_api env file w) = Inl e
             \<longrightarrow> sel = Inl e \<or> (\<exists>L. sel = Inr L \<and> extractor env L fs = Inl e))
       \<and> (\<forall>L units. sel = Inr L \<and> extractor env L fs = Inr units
             \<longrightarrow> (\<exists>docs. fst (load_file_api env file w) = Inr docs
                    \<and> length docs = length units))
       \<and> fst (load_file_api env file w)
           = fst (try_body env file
                    (w\<lparr>log := log w @ [LogUpload (content_type file) (filename file)]\<rparr>))"
proof -
  define W where "W = w\<lparr>files := fs\<rparr>"
  have W: "files W = (files w)(name \<mapsto> data)" by (simp add: W_def fs)
  note res = load_file_api_result [OF assms(1-5) name W]
  have fW: "files W = fs" by (simp add: W_def)
  show ?thesis
  proof (cases rule: load_file_cases [of env name W])
    case (unsupported e)
    then have "fst (load_file_api env file w) = Inl e" "sel = Inl e"
      by (simp_all add: res sel)
    then show ?thesis by (simp add: load_file_api_fst)
  next
    case (failed L e)
    then have "fst (load_file_api env file w) = Inl e" "sel = Inr L" "extractor env L fs = Inl e"
      by (simp_all add: res sel fW)
    then show ?thesis by (simp add: load_file_api_fst)
  next
    case (loaded L units)
    then have "\<exists>docs. fst (load_file_api env file w) = Inr docs \<and> length docs = length units"
      "sel = Inr L" "extractor env L fs = Inr units"
      by (simp_all add: res sel fW)
    then show ?thesis by (auto simp: load_file_api_fst)
  qed
qed

section \<open>Concrete runs of the endpoint\<close>

lemma sample_staging:
  "filename (upload n d) = Some (ustr n)" "contents (upload n d) = Inr d"
  "tmp_create sample_env = None" "tmp_write sample_env = None" "tmp_flush sample_env = None"
  by (simp_all add: upload_def sample_env_def)

lemma sample_tmp_name: "tmp_name sample_env e = ustr ''/tmp/tmpk3x'' @ e"
  by (simp add: tmp_name_def path_join_def sample_env_def ustr_def sep_def)

lemma splitext_simple:
  assumes "sep \<notin> set stem" "\<exists>c \<in> set stem. c \<noteq> extsep" "extsep \<notin> set e" "sep \<notin> set e"
  shows "splitext (stem @ extsep # e) = (stem, extsep # e)"
  using splitext_ext [of "[]" stem e] assms by simp

lemma splitext_sample_tmp:
  assumes "extsep \<notin> set e" "sep \<notin> set e"
  shows "splitext (ustr ''/tmp/tmpk3x'' @ extsep # e) = (ustr ''/tmp/tmpk3x'', extsep # e)"
proof -
  have "splitext (ustr ''/tmp/'' @ ustr ''tmpk3x'' @ extsep # e)
      = (ustr ''/tmp/'' @ ustr ''tmpk3x'', extsep # e)"
    using assms by (intro splitext_ext) (simp_all add: ustr_def sep_def extsep_def)
  then show ?thesis by (simp add: ustr_def)
qed

lemma splitext_data_csv: "splitext (ustr ''data.csv'') = (ustr ''data'', ustr ''.csv'')"
proof -
  have "splitext (ustr ''data'' @ extsep # ustr ''csv'') = (ustr ''data'', extsep # ustr ''csv'')"
    by (rule splitext_simple) (simp_all add: ustr_def sep_def extsep_def)
  then show ?thesis by (simp add: ustr_def extsep_def)
qed

lemma sample_tmp_csv:
  "tmp_name sample_env (snd (splitext (ustr ''data.csv''))) = ustr ''/tmp/tmpk3x.csv''"
  unfolding splitext_data_csv snd_conv sample_tmp_name by (simp add: ustr_def)

lemma splitext_tmp_csv:
  "splitext (ustr ''/tmp/tmpk3x.csv'') = (ustr ''/tmp/tmpk3x'', ustr ''.csv'')"
proof -
  have "splitext (ustr ''/tmp/tmpk3x'' @ extsep # ustr ''csv'')
      = (ustr ''/tmp/tmpk3x'', extsep # ustr ''csv'')"
    by (rule splitext_sample_tmp) (simp_all add: ustr_def sep_def extsep_def)
  then show ?thesis by (simp add: ustr_def extsep_def)
qed

lemma lower_csv: "lower ascii_db (ustr ''.csv'') = ustr ''.csv''"
  by (simp add: lower_def lower_ascii_def ustr_def)

lemma select_tmp_csv:
  "select_loader (lower (udb sample_env) (snd (splitext (ustr ''/tmp/tmpk3x.csv''))))
     (ustr ''/tmp/tmpk3x.csv'') = Inr (CSVLoader (ustr ''/tmp/tmpk3x.csv''))"
  by (simp add: splitext_tmp_csv sample_env_def lower_csv select_loader_def)

lemma extract_tmp_csv:
  "extractor sample_env (CSVLoader (ustr ''/tmp/tmpk3x.csv'')) fs
     = Inl (LoaderError (ustr ''/tmp/tmpk3x.csv''))"
  by (simp add: sample_env_def sample_extract_def)

lemma sample_tmp_xyz:
  "tmp_name sample_env (snd (splitext (ustr ''a.xyz''))) = ustr ''/tmp/tmpk3x.xyz''"
  unfolding splitext_xyz snd_conv sample_tmp_name by (simp add: ustr_def)

lemma splitext_tmp_xyz:
  "splitext (ustr ''/tmp/tmpk3x.xyz'') = (ustr ''/tmp/tmpk3x'', ustr ''.xyz'')"
proof -
  have "splitext (ustr ''/tmp/tmpk3x'' @ extsep # ustr ''xyz'')
      = (ustr ''/tmp/tmpk3x'', extsep # ustr ''xyz'')"
    by (rule splitext_sample_tmp) (simp_all add: ustr_def sep_def extsep_def)
  then show ?thesis by (simp add: ustr_def extsep_def)
qed

lemma select_tmp_xyz:
  "select_loader (lower (udb sample_env) (snd (splitext (ustr ''/tmp/tmpk3x.xyz''))))
     (ustr ''/tmp/tmpk3x.xyz'') = Inl (ValueError (ustr ''Unsupported file type: .xyz''))"
proof -
  have "select_loader (ustr ''.xyz'') (ustr ''/tmp/tmpk3x.xyz'')
      = Inl (ValueError (ustr ''Unsupported file type: '' @ ustr ''.xyz''))"
    by (simp add: select_loader_def)
  moreover have "ustr ''Unsupported file type: '' @ ustr ''.xyz''
      = ustr ''Unsupported file type: .xyz''"
    by (simp add: ustr_def)
  ultimately show ?thesis
    by (simp add: splitext_tmp_xyz sample_env_def lower_xyz)
qed

theorem errors_propagate_witness:
  "fst (load_file_api sample_env (upload ''data.csv'' [49]) empty_world)
     = Inl (LoaderError (ustr ''/tmp/tmpk3x.csv''))
   \<and> fst (load_file_api sample_env (upload ''a.xyz'' [49]) empty_world)
     = Inl (ValueError (ustr ''Unsupported file type: .xyz''))"
proof -
  note csv = errors_propagate [OF sample_staging(1) sample_staging(3) sample_staging(2)
      sample_staging(4) sample_staging(5) sample_tmp_csv [symmetric] refl refl,
      of "[49]" empty_world]
  from csv have "\<forall>L e. select_loader (lower (udb sample_env) (snd (splitext (ustr ''/tmp/tmpk3x.csv''))))
           (ustr ''/tmp/tmpk3x.csv'') = Inr L
         \<and> extractor sample_env L ((files empty_world)(ustr ''/tmp/tmpk3x.csv'' \<mapsto> [49])) = Inl e
       \<longrightarrow> fst (load_file_api sample_env (upload ''data.csv'' [49]) empty_world) = Inl e"
    by blast
  then have a: "fst (load_file_api sample_env (upload ''data.csv'' [49]) empty_world)
     = Inl (LoaderError (ustr ''/tmp/tmpk3x.csv''))"
    using select_tmp_csv extract_tmp_csv by blast
  note xyz = errors_propagate [OF sample_staging(1) sample_staging(3) sample_staging(2)
      sample_staging(4) sample_staging(5) sample_tmp_xyz [symmetric] refl refl,
      of "[49]" empty_world]
  from xyz have "\<forall>e. select_loader (lower (udb sample_env) (snd (splitext (ustr ''/tmp/tmpk3x.xyz''))))
           (ustr ''/tmp/tmpk3x.xyz'') = Inl e
       \<longrightarrow> fst (load_file_api sample_env (upload ''a.xyz'' [49]) empty_world) = Inl e"
    by blast
  then have b: "fst (load_file_api sample_env (upload ''a.xyz'' [49]) empty_world)
     = Inl (ValueError (ustr ''Unsupported file type: .xyz''))"
    using select_tmp_xyz by blast
  from a b show ?thesis by (rule conjI)
qed

lemma with_body_Inr_D:
  "fst (with_body env file name w) = Inr ds
   \<Longrightarrow> \<exists>data. contents file = Inr data \<and> tmp_write env = None \<and> tmp_flush env = None"
  by (simp add: with_body_def split: sum.splits option.splits)

lemma load_file_api_Inr_D:
  assumes "fst (load_file_api env file w) = Inr docs"
  obtains fname data L units where
    "filename file = Some fname" "contents file = Inr data"
    "select_loader (lower (udb env) (snd (splitext (tmp_name env (snd (splitext fname))))))
       (tmp_name env (snd (splitext fname))) = Inr L"
    "extractor env L ((files w)(tmp_name env (snd (splitext fname)) \<mapsto> data)) = Inr units"
    "docs = map (\<lambda>d. \<lparr>page_content = make_printable (udb env) (page_content d),
                       metadata = ([ustr ''page'' \<mapsto> dict_get (metadata d) (ustr ''page'') (VInt 0)]
                                   ++ metadata d)
                                  (ustr ''source'' \<mapsto> VStr fname,
                                   ustr ''document_id'' \<mapsto> VStr fname)\<rparr>) units"
proof -
  define w0 where "w0 = w\<lparr>log := log w @ [LogUpload (content_type file) (filename file)]\<rparr>"
  from assms have t: "fst (try_body env file w0) = Inr docs"
    by (simp add: load_file_api_fst w0_def)
  then obtain fname where fn: "filename file = Some fname"
    by (cases "filename file") (simp_all add: try_body_no_name)
  from t fn have cr: "tmp_create env = None"
    by (cases "tmp_create env") (simp_all add: try_body_not_created)
  define name where "name = tmp_name env (snd (splitext fname))"
  define w1 where "w1 = w0\<lparr>files := (files w0)(name \<mapsto> []),
                           handles := insert (TemporaryFile name) (handles w0)\<rparr>"
  obtain r w2 where wb: "with_body env file name w1 = (r, w2)"
    by (cases "with_body env file name w1")
  from try_body_created [OF fn cr name_def wb [unfolded w1_def]] t
  obtain ds where r: "r = Inr ds"
    by (cases r) simp_all
  from wb r have "fst (with_body env file name w1) = Inr ds" by simp
  then obtain data where st: "contents file = Inr data" "tmp_write env = None" "tmp_flush env = None"
    using with_body_Inr_D by blast
  define W where "W = w\<lparr>files := (files w)(name \<mapsto> data)\<rparr>"
  have W: "files W = (files w)(name \<mapsto> data)" by (simp add: W_def)
  note res = load_file_api_result [OF fn cr st name_def W]
  show ?thesis
  proof (cases rule: load_file_cases [of env name W])
    case (unsupported e)
    with res assms show ?thesis by simp
  next
    case (failed L e)
    with res assms show ?thesis by simp
  next
    case (loaded L units)
    with res assms have "docs = map (\<lambda>d. \<lparr>page_content = make_printable (udb env) (page_content d),
                       metadata = ([ustr ''page'' \<mapsto> dict_get (metadata d) (ustr ''page'') (VInt 0)]
                                   ++ metadata d)
                                  (ustr ''source'' \<mapsto> VStr fname,
                                   ustr ''document_id'' \<mapsto> VStr fname)\<rparr>) units"
      by (simp add: comp_def)
    with loaded(1,2) fn st(1) that show ?thesis
      unfolding name_def W by blast
  qed
qed

text \<open>
  C4. After a successful load through \<^verbatim>\<open>load_file_api\<close>, every returned document
  has the keys \<^verbatim>\<open>source\<close> and \<^verbatim>\<open>document_id\<close>, both with the file name the
  caller uploaded, whatever the unit of the extractor had under these keys; under
  every other key the document has what the unit had (over the default
  \<^verbatim>\<open>page\<close>).
\<close>

theorem overlay_overrides:
  assumes "load_file_api env file w = (Inr docs, w')"
  shows "\<exists>fname data L units.
           filename file = Some fname \<and> contents file = Inr data
         \<and> extractor env L ((files w)(tmp_name env (snd (splitext fname)) \<mapsto> data)) = Inr units
         \<and> length docs = length units
         \<and> (\<forall>i < length docs.
               metadata (docs ! i) (ustr ''source'') = Some (VStr fname)
             \<and> metadata (docs ! i) (ustr ''document_id'') = Some (VStr fname)
             \<and> (\<forall>k. k \<noteq> ustr ''source'' \<and> k \<noteq> ustr ''document_id''
                   \<longrightarrow> metadata (docs ! i) k
                       = ([ustr ''page'' \<mapsto> dict_get (metadata (units ! i)) (ustr ''page'') (VInt 0)]
                          ++ metadata (units ! i)) k))"
proof -
  from assms have "fst (load_file_api env file w) = Inr docs" by simp
  then obtain fname data L units where
    fn: "filename file = Some fname" and ct: "contents file = Inr data"
    and "select_loader (lower (udb env) (snd (splitext (tmp_name env (snd (splitext fname))))))
       (tmp_name env (snd (splitext fname))) = Inr L"
    and ex: "extractor env L ((files w)(tmp_name env (snd (splitext fname)) \<mapsto> data)) = Inr units"
    and docs: "docs = map (\<lambda>d. \<lparr>page_content = make_printable (udb env) (page_content d),
                       metadata = ([ustr ''page'' \<mapsto> dict_get (metadata d) (ustr ''page'') (VInt 0)]
                                   ++ metadata d)
                                  (ustr ''source'' \<mapsto> VStr fname,
                                   ustr ''document_id'' \<mapsto> VStr fname)\<rparr>) units"
    by (rule load_file_api_Inr_D)
  have len: "length docs = length units" by (simp add: docs)
  have each: "metadata (docs ! i) (ustr ''source'') = Some (VStr fname)
             \<and> metadata (docs ! i) (ustr ''document_id'') = Some (VStr fname)
             \<and> (\<forall>k. k \<noteq> ustr ''source'' \<and> k \<noteq> ustr ''document_id''
                   \<longrightarrow> metadata (docs ! i) k
                       = ([ustr ''page'' \<mapsto> dict_get (metadata (units ! i)) (ustr ''page'') (VInt 0)]
                          ++ metadata (units ! i)) k)"
    if "i < length docs" for i
    using that by (simp add: docs)
  from fn ct ex len each show ?thesis by blast
qed

text \<open>
  C9. In every document that \<^verbatim>\<open>load_file_api\<close> returns, \<^verbatim>\<open>source\<close> and
  \<^verbatim>\<open>document_id\<close> have the same value, the file name of the upload.
\<close>

theorem source_equals_document_id:
  assumes "load_file_api env file w = (Inr docs, w')"
  shows "\<exists>fname. filename file = Some fname
       \<and> (\<forall>d \<in> set docs.
             metadata d (ustr ''source'') = metadata d (ustr ''document_id'')
           \<and> metadata d (ustr ''source'') = Some (VStr fname)
           \<and> metadata d (ustr ''document_id'') = Some (VStr fname))"
proof -
  from assms have "fst (load_file_api env file w) = Inr docs" by simp
  then obtain fname data L units where
    fn: "filename file = Some fname" and "contents file = Inr data"
    and "select_loader (lower (udb env) (snd (splitext (tmp_name env (snd (splitext fname))))))
       (tmp_name env (snd (splitext fname))) = Inr L"
    and "extractor env L ((files w)(tmp_name env (snd (splitext fname)) \<mapsto> data)) = Inr units"
    and docs: "docs = map (\<lambda>d. \<lparr>page_content = make_printable (udb env) (page_content d),
                       metadata = ([ustr ''page'' \<mapsto> dict_get (metadata d) (ustr ''page'') (VInt 0)]
                                   ++ metadata d)
                                  (ustr ''source'' \<mapsto> VStr fname,
                                   ustr ''document_id'' \<mapsto> VStr fname)\<rparr>) units"
    by (rule load_file_api_Inr_D)
  have "metadata d (ustr ''source'') = metadata d (ustr ''document_id'')
           \<and> metadata d (ustr ''source'') = Some (VStr fname)
           \<and> metadata d (ustr ''document_id'') = Some (VStr fname)"
    if "d \<in> set docs" for d
    using that by (auto simp: docs)
  with fn show ?thesis by blast
qed

lemma sample_tmp_pdf:
  "tmp_name sample_env (snd (splitext (ustr ''doc.pdf''))) = ustr ''/tmp/tmpk3x.pdf''"
  unfolding splitext_doc_pdf snd_conv sample_tmp_name by (simp add: ustr_def)

lemma splitext_tmp_pdf:
  "splitext (ustr ''/tmp/tmpk3x.pdf'') = (ustr ''/tmp/tmpk3x'', ustr ''.pdf'')"
proof -
  have "splitext (ustr ''/tmp/tmpk3x'' @ extsep # ustr ''pdf'')
      = (ustr ''/tmp/tmpk3x'', extsep # ustr ''pdf'')"
    by (rule splitext_sample_tmp) (simp_all add: ustr_def sep_def extsep_def)
  then show ?thesis by (simp add: ustr_def extsep_def)
qed

lemma select_tmp_pdf:
  "select_loader (lower (udb sample_env) (snd (splitext (ustr ''/tmp/tmpk3x.pdf''))))
     (ustr ''/tmp/tmpk3x.pdf'') = Inr (PDFPlumberLoader (ustr ''/tmp/tmpk3x.pdf''))"
  by (simp add: splitext_tmp_pdf sample_env_def lower_pdf select_loader_def)

lemma extract_tmp_pdf:
  "\<exists>u0 u1. extractor sample_env (PDFPlumberLoader (ustr ''/tmp/tmpk3x.pdf'')) fs = Inr [u0, u1]"
  by (simp add: sample_env_def sample_extract_def)

lemma sample_pdf_result:
  "\<exists>docs w'. load_file_api sample_env (upload ''doc.pdf'' [37]) empty_world = (Inr docs, w')
     \<and> length docs = 2"
proof -
  define W where "W = empty_world\<lparr>files := (files empty_world)(ustr ''/tmp/tmpk3x.pdf'' \<mapsto> [37])\<rparr>"
  have W: "files W = (files empty_world)(ustr ''/tmp/tmpk3x.pdf'' \<mapsto> [37])"
    by (simp add: W_def)
  obtain u0 u1 where
    ex: "extractor sample_env (PDFPlumberLoader (ustr ''/tmp/tmpk3x.pdf'')) (files W) = Inr [u0, u1]"
    using extract_tmp_pdf by blast
  have "\<exists>ds. fst (load_file sample_env (ustr ''/tmp/tmpk3x.pdf'') W) = Inr ds \<and> length ds = 2"
    using load_file_extract_ok [OF select_tmp_pdf ex] by simp
  then obtain ds where ds: "fst (load_file sample_env (ustr ''/tmp/tmpk3x.pdf'') W) = Inr ds"
    "length ds = 2" by blast
  have "\<exists>docs. fst (load_file_api sample_env (upload ''doc.pdf'' [37]) empty_world) = Inr docs
      \<and> length docs = 2"
    using load_file_api_result [OF sample_staging(1) sample_staging(3) sample_staging(2)
        sample_staging(4) sample_staging(5) sample_tmp_pdf [symmetric] W] ds
    by simp
  then show ?thesis
    by (metis prod.collapse)
qed

theorem overlay_overrides_witness:
  "\<exists>docs w'. load_file_api sample_env (upload ''doc.pdf'' [37]) empty_world = (Inr docs, w')
     \<and> length docs = 2
     \<and> metadata (docs ! 0) (ustr ''source'') = Some (VStr (ustr ''doc.pdf''))
     \<and> metadata (docs ! 1) (ustr ''document_id'') = Some (VStr (ustr ''doc.pdf''))"
proof -
  obtain docs w' where
    l: "load_file_api sample_env (upload ''doc.pdf'' [37]) empty_world = (Inr docs, w')"
    and n: "length docs = 2"
    using sample_pdf_result by blast
  from overlay_overrides [OF l] obtain fname where
    fn: "filename (upload ''doc.pdf'' [37]) = Some fname"
    and ov: "\<forall>i < length docs.
               metadata (docs ! i) (ustr ''source'') = Some (VStr fname)
             \<and> metadata (docs ! i) (ustr ''document_id'') = Some (VStr fname)"
    by blast
  from fn have f: "fname = ustr ''doc.pdf''" by (simp add: sample_staging)
  from ov n have "metadata (docs ! 0) (ustr ''source'') = Some (VStr fname)"
    "metadata (docs ! 1) (ustr ''document_id'') = Some (VStr fname)"
    by simp_all
  with l n show ?thesis unfolding f by blast
qed

theorem source_equals_document_id_witness:
  "\<exists>docs w'. load_file_api sample_env (upload ''doc.pdf'' [37]) empty_world = (Inr docs, w')
     \<and> length docs = 2
     \<and> metadata (docs ! 1) (ustr ''source'') = metadata (docs ! 1) (ustr ''document_id'')
     \<and> metadata (docs ! 1) (ustr ''source'') = Some (VStr (ustr ''doc.pdf''))"
proof -
  obtain docs w' where
    l: "load_file_api sample_env (upload ''doc.pdf'' [37]) empty_world = (Inr docs, w')"
    and n: "length docs = 2"
    using sample_pdf_result by blast
  from source_equals_document_id [OF l] obtain fname where
    fn: "filename (upload ''doc.pdf'' [37]) = Some fname"
    and eq: "\<forall>d \<in> set docs.
             metadata d (ustr ''source'') = metadata d (ustr ''document_id'')
           \<and> metadata d (ustr ''source'') = Some (VStr fname)
           \<and> metadata d (ustr ''document_id'') = Some (VStr fname)"
    by blast
  from fn have f: "fname = ustr ''doc.pdf''" by (simp add: sample_staging)
  have "docs ! 1 \<in> set docs" using n by simp
  with eq have "metadata (docs ! 1) (ustr ''source'') = metadata (docs ! 1) (ustr ''document_id'')"
    "metadata (docs ! 1) (ustr ''source'') = Some (VStr fname)"
    by blast+
  with l n show ?thesis unfolding f by blast
qed

section \<open>The temporary file and the open handles\<close>












section \<open>A page that is not an integer\<close>

lemma string_page_env_fields:
  "udb string_page_env = ascii_db"
  "extractor string_page_env L fs
     = Inr [\<lparr>page_content = [65], metadata = [ustr ''page'' \<mapsto> VStr (ustr ''3'')]\<rparr>]"
  by (simp_all add: string_page_env_def sample_env_def)

text \<open>
  C3, as stated, fails when the unit of the extractor has a string under
  \<^verbatim>\<open>page\<close>: \<^verbatim>\<open>load_file\<close> hands the string on as it is.
\<close>

theorem load_file_page_key_counterexample:
  "fst (load_file string_page_env (ustr ''doc.pdf'') empty_world)
     = Inr [\<lparr>page_content = [65], metadata = [ustr ''page'' \<mapsto> VStr (ustr ''3'')]\<rparr>]
   \<and> \<not> is_int (VStr (ustr ''3''))"
proof -
  have sel: "select_loader (lower (udb string_page_env) (snd (splitext (ustr ''doc.pdf''))))
      (ustr ''doc.pdf'') = Inr (PDFPlumberLoader (ustr ''doc.pdf''))"
    by (simp add: string_page_env_fields splitext_doc_pdf lower_pdf select_loader_def)
  have m: "[ustr ''page'' \<mapsto> dict_get [ustr ''page'' \<mapsto> VStr (ustr ''3'')] (ustr ''page'') (VInt 0)]
        ++ [ustr ''page'' \<mapsto> VStr (ustr ''3'')]
      = [ustr ''page'' \<mapsto> VStr (ustr ''3'')]"
    by (rule ext) (simp add: map_add_def)
  have p: "make_printable ascii_db [65] = [65]"
    by (simp add: make_printable_filter isprintable_def)
  have "fst (load_file string_page_env (ustr ''doc.pdf'') empty_world)
     = Inr [\<lparr>page_content = [65], metadata = [ustr ''page'' \<mapsto> VStr (ustr ''3'')]\<rparr>]"
    using load_file_extract_ok [OF sel string_page_env_fields(2), of empty_world]
    by (simp add: string_page_env_fields(1) m p)
  then show ?thesis by simp
qed

end
